theory Spec2Isabelle
  imports Main
begin

section \<open>Python string primitives used by the task manager\<close>

text \<open>
  Strings are lists of characters. The model covers ASCII text: the white space that
  \<^verbatim>\<open>str.strip()\<close> removes is the ASCII white space of \<^verbatim>\<open>str.isspace\<close> (tab, line feed,
  vertical tab, form feed, carriage return, the four separators 0x1C to 0x1F and the
  blank), and the digits that \<^verbatim>\<open>int()\<close> reads are \<^verbatim>\<open>0\<close> to \<^verbatim>\<open>9\<close>.
\<close>

definition is_space :: "char \<Rightarrow> bool" where
  "is_space c = (let n = (of_char c :: nat) in (9 \<le> n \<and> n \<le> 13) \<or> (28 \<le> n \<and> n \<le> 32))"

definition strip :: "string \<Rightarrow> string" where
  "strip s = rev (dropWhile is_space (rev (dropWhile is_space s)))"

definition lower_char :: "char \<Rightarrow> char" where
  "lower_char c = (let n = (of_char c :: nat) in if 65 \<le> n \<and> n \<le> 90 then char_of (n + 32) else c)"

definition lower :: "string \<Rightarrow> string" where
  "lower s = map lower_char s"

definition upper_char :: "char \<Rightarrow> char" where
  "upper_char c = (let n = (of_char c :: nat) in if 97 \<le> n \<and> n \<le> 122 then char_of (n - 32) else c)"

definition upper :: "string \<Rightarrow> string" where
  "upper s = map upper_char s"

text \<open>\<^verbatim>\<open>s.split(", ")\<close>: the fields between the non-overlapping occurrences of a comma
  followed by a blank, read from the left; the result is never empty.\<close>

fun split_cs :: "string \<Rightarrow> string list" where
  "split_cs [] = [[]]"
| "split_cs [c] = [[c]]"
| "split_cs (c # d # cs) =
     (if c = CHR '','' \<and> d = CHR '' '' then [] # split_cs cs
      else (case split_cs (d # cs) of
              [] \<Rightarrow> [[c]]
            | f # fs \<Rightarrow> (c # f) # fs))"

text \<open>\<^verbatim>\<open>", ".join(fields)\<close>.\<close>

fun join_cs :: "string list \<Rightarrow> string" where
  "join_cs [] = []"
| "join_cs [f] = f"
| "join_cs (f # g # fs) = f @ '', '' @ join_cs (g # fs)"

definition is_digit :: "char \<Rightarrow> bool" where
  "is_digit c = (let n = (of_char c :: nat) in 48 \<le> n \<and> n \<le> 57)"

definition digit_val :: "char \<Rightarrow> nat" where
  "digit_val c = of_char c - 48"

text \<open>
  \<^verbatim>\<open>int(s)\<close> in base ten on ASCII text: the white space dropped around the number is that
  of the C locale only (blank, tab, line feed, vertical tab, form feed, carriage return; the
  separators 0x1C to 0x1F, which \<^verbatim>\<open>str.strip()\<close> removes, are refused here), one sign may
  lead, and single underscores may stand between digits. A number of more than
  \<^verbatim>\<open>sys.int_info.default_max_str_digits\<close> digits is refused. \<open>None\<close> is the
  \<^verbatim>\<open>ValueError\<close>.
\<close>

definition is_c_space :: "char \<Rightarrow> bool" where
  "is_c_space c = (let n = (of_char c :: nat) in (9 \<le> n \<and> n \<le> 13) \<or> n = 32)"

definition max_str_digits :: nat where
  "max_str_digits = 4300"

fun py_digits :: "nat \<Rightarrow> string \<Rightarrow> nat option" where
  "py_digits acc [] = Some acc"
| "py_digits acc (c # cs) =
     (if is_digit c then py_digits (10 * acc + digit_val c) cs
      else if c = CHR ''_'' then
        (case cs of
           [] \<Rightarrow> None
         | d # ds \<Rightarrow> if is_digit d then py_digits (10 * acc + digit_val d) ds else None)
      else None)"

definition py_nat :: "string \<Rightarrow> nat option" where
  "py_nat s =
     (case s of
        [] \<Rightarrow> None
      | c # cs \<Rightarrow>
          if is_digit c \<and> length (filter is_digit s) \<le> max_str_digits
          then py_digits (digit_val c) cs else None)"

definition py_int :: "string \<Rightarrow> int option" where
  "py_int s =
     (case rev (dropWhile is_c_space (rev (dropWhile is_c_space s))) of
        [] \<Rightarrow> None
      | c # cs \<Rightarrow>
          if c = CHR ''-'' then map_option (\<lambda>n. - int n) (py_nat cs)
          else if c = CHR ''+'' then map_option int (py_nat cs)
          else map_option int (py_nat (c # cs)))"

section \<open>Records, files and the observable effects\<close>

definition USER_FILE :: string where
  "USER_FILE = ''user.txt''"

definition TASK_FILE :: string where
  "TASK_FILE = ''task.txt''"

definition TASK_OVERVIEW_FILE :: string where
  "TASK_OVERVIEW_FILE = ''task_overview.txt''"

definition USER_OVERVIEW_FILE :: string where
  "USER_OVERVIEW_FILE = ''user_overview.txt''"

text \<open>The 7-tuple of a task line, with the names the source unpacks it to.\<close>

record task =
  tid :: string
  uname :: string
  ttitle :: string
  tdesc :: string
  tdue :: string
  tassigned :: string
  tstatus :: string

text \<open>Class \<^verbatim>\<open>User\<close>.\<close>

record user =
  username :: string
  password :: string
  role :: string

text \<open>What an operation can raise and does not handle where it is raised. \<open>ValueError\<close>
  carries the text that did not parse.\<close>

datatype exn = ValueError string | TypeError | EOFError

text \<open>Console output: \<^verbatim>\<open>print_header(title)\<close> and \<^verbatim>\<open>print(text)\<close>. \<open>ErrorLine\<close> is the line
  \<^verbatim>\<open>print(f"  Error {operation}: {error}")\<close> of \<^verbatim>\<open>handle_file_error\<close>; the interpreter's
  message text of the exception is not reproduced.\<close>

datatype printed = Header string | Line string | ErrorLine string exn

datatype level = INFO | WARNING | ERROR

text \<open>Entries of the log file; \<open>LogFailure\<close> is the entry of \<^verbatim>\<open>handle_file_error\<close>.\<close>

datatype log_entry = Log level string | LogFailure string exn

text \<open>The calls on the file system that change it, in the order they are made:
  \<^verbatim>\<open>shutil.copy2(src, dst)\<close> with its outcome, and \<^verbatim>\<open>open(name, "w")\<close>.\<close>

datatype fs_call = Copy string string bool | OpenWrite string

text \<open>\<^verbatim>\<open>datetime.date\<close>.\<close>

record date =
  year :: nat
  month :: nat
  day :: nat

text \<open>
  The two report files hold the numbers their lines are written from: the layout of the
  lines and the percentages, which are floating-point quotients of these numbers guarded
  against a zero denominator, are left out. \<open>closed\<close> says that the last line of the user
  overview was written.
\<close>

record task_overview =
  total_tasks :: nat
  completed_tasks :: nat
  incomplete_tasks :: nat
  overdue_tasks :: nat

record user_section =
  section_user :: string
  user_task_count :: nat
  user_completed :: nat
  user_incomplete :: nat
  user_overdue :: nat

record user_overview =
  total_users :: nat
  tracked_tasks :: nat
  sections :: "user_section list"
  closed :: bool

text \<open>
  The world an operation runs in. A text file is absent (\<open>None\<close>, the
  \<^verbatim>\<open>FileNotFoundError\<close> of \<^verbatim>\<open>open\<close>) or the list of its lines as iterating over
  the file object yields them, each with its line terminator. \<open>copy_ok\<close> says whether a copy
  of an existing file succeeds, \<open>now_stamp\<close> is the clock reading
  \<^verbatim>\<open>datetime.now().strftime("%Y%m%d_%H%M%S")\<close> and \<open>today\<close> is
  \<^verbatim>\<open>datetime.now().date()\<close>; the three are given by the environment.
  I/O failures of an existing file other than of the backup copy are outside the model.
\<close>

record world =
  files :: "string \<Rightarrow> string list option"
  task_overview_txt :: "task_overview option"
  user_overview_txt :: "user_overview option"
  console :: "printed list"
  logged :: "log_entry list"
  calls :: "fs_call list"
  copy_ok :: bool
  now_stamp :: string
  today :: date

definition print_header :: "string \<Rightarrow> world \<Rightarrow> world" where
  "print_header t w = w\<lparr>console := console w @ [Header t]\<rparr>"

definition print_line :: "string \<Rightarrow> world \<Rightarrow> world" where
  "print_line s w = w\<lparr>console := console w @ [Line s]\<rparr>"

definition logging :: "level \<Rightarrow> string \<Rightarrow> world \<Rightarrow> world" where
  "logging lv s w = w\<lparr>logged := logged w @ [Log lv s]\<rparr>"

definition handle_file_error :: "string \<Rightarrow> exn \<Rightarrow> world \<Rightarrow> world" where
  "handle_file_error operation e w =
     (let w1 = print_header ''ERROR'' w;
          w2 = w1\<lparr>console := console w1 @ [ErrorLine operation e]\<rparr>;
          w3 = print_line [] w2
      in w3\<lparr>logged := logged w3 @ [LogFailure operation e]\<rparr>)"

definition apos :: string where
  "apos = [CHR 0x27]"

definition newline :: string where
  "newline = [CHR 0x0A]"

section \<open>The record store\<close>

definition backup_file :: "string \<Rightarrow> world \<Rightarrow> bool \<times> world" where
  "backup_file filename w =
     (let timestamp = now_stamp w;
          backup_name = filename @ ''.backup_'' @ timestamp
      in case files w filename of
           Some content \<Rightarrow>
             if copy_ok w then
               (True, logging INFO (''Backup created: '' @ backup_name)
                        (w\<lparr>files := (files w)(backup_name := Some content),
                           calls := calls w @ [Copy filename backup_name True]\<rparr>))
             else
               (False, logging ERROR (''Backup failed for '' @ filename)
                         (w\<lparr>calls := calls w @ [Copy filename backup_name False]\<rparr>))
         | None \<Rightarrow>
             (False, logging ERROR (''Backup failed for '' @ filename)
                       (w\<lparr>calls := calls w @ [Copy filename backup_name False]\<rparr>)))"

text \<open>In \<^verbatim>\<open>backup_file\<close> the text of the exception in the log entry of a failed copy is left
  out.\<close>

text \<open>\<^verbatim>\<open>tuple(task_data)\<close> for a list of seven fields.\<close>

definition as_task :: "string list \<Rightarrow> task" where
  "as_task task_data =
     \<lparr>tid = task_data ! 0, uname = task_data ! 1, ttitle = task_data ! 2,
      tdesc = task_data ! 3, tdue = task_data ! 4, tassigned = task_data ! 5,
      tstatus = task_data ! 6\<rparr>"

definition task_fields :: "task \<Rightarrow> string list" where
  "task_fields t = [tid t, uname t, ttitle t, tdesc t, tdue t, tassigned t, tstatus t]"

fun read_tasks_loop :: "string list \<Rightarrow> task list \<Rightarrow> task list" where
  "read_tasks_loop [] tasks = tasks"
| "read_tasks_loop (line # rest) tasks =
     (let task_data = split_cs (strip line)
      in if length task_data = 7 then read_tasks_loop rest (tasks @ [as_task task_data])
         else read_tasks_loop rest tasks)"

definition read_all_tasks :: "world \<Rightarrow> task list" where
  "read_all_tasks w =
     (case files w TASK_FILE of
        None \<Rightarrow> []
      | Some lines \<Rightarrow> read_tasks_loop lines [])"

text \<open>Every element of the list is a 7-tuple here, so the length test of the source always
  passes.\<close>

definition task_line :: "task \<Rightarrow> string" where
  "task_line t = join_cs (task_fields t) @ newline"

definition write_all_tasks :: "task list \<Rightarrow> world \<Rightarrow> world" where
  "write_all_tasks tasks w =
     w\<lparr>files := (files w)(TASK_FILE := Some (map task_line tasks)),
       calls := calls w @ [OpenWrite TASK_FILE]\<rparr>"

section \<open>The task lifecycle engine\<close>

fun next_id_loop :: "string list \<Rightarrow> int \<Rightarrow> int" where
  "next_id_loop [] max_id = max_id"
| "next_id_loop (line # rest) max_id =
     (let task_data = split_cs (strip line)
      in if length task_data = 7 then
           (case py_int (task_data ! 0) of
              Some task_id \<Rightarrow> next_id_loop rest (max max_id task_id)
            | None \<Rightarrow> next_id_loop rest max_id)
         else next_id_loop rest max_id)"

definition get_next_task_id :: "world \<Rightarrow> int" where
  "get_next_task_id w =
     (case files w TASK_FILE of
        None \<Rightarrow> 1
      | Some lines \<Rightarrow> next_id_loop lines 0 + 1)"

text \<open>The loop of \<^verbatim>\<open>delete_task\<close> over the tasks read, with the variables
  \<^verbatim>\<open>found\<close>, \<^verbatim>\<open>deleted_task_info\<close> and \<^verbatim>\<open>updated_tasks\<close>.\<close>

fun delete_loop :: "string \<Rightarrow> task list \<Rightarrow> bool \<times> string \<times> task list \<Rightarrow> bool \<times> string \<times> task list" where
  "delete_loop task_identifier [] st = st"
| "delete_loop task_identifier (task_data # rest) (found, deleted_task_info, updated_tasks) =
     (if tid task_data = task_identifier \<or> ttitle task_data = task_identifier then
        delete_loop task_identifier rest
          (True, ''Task ID '' @ tid task_data @ '' ('' @ apos @ ttitle task_data @ apos @ '')'',
           updated_tasks)
      else delete_loop task_identifier rest (found, deleted_task_info, updated_tasks @ [task_data]))"

definition delete_task :: "string \<Rightarrow> world \<Rightarrow> world" where
  "delete_task task_identifier w =
     (let w1 = print_header ''DELETE TASK'' w;
          w2 = snd (backup_file TASK_FILE w1);
          tasks = read_all_tasks w2
      in case delete_loop task_identifier tasks (False, [], []) of
           (found, deleted_task_info, updated_tasks) \<Rightarrow>
             if found then
               logging INFO (''Task deleted - '' @ deleted_task_info)
                 (print_line []
                   (print_line (''  '' @ deleted_task_info @ '' has been deleted.'')
                     (print_header ''SUCCESS'' (write_all_tasks updated_tasks w2))))
             else
               print_line []
                 (print_line (''  Task '' @ apos @ task_identifier @ apos @ '' not found.'')
                   (print_header ''ERROR'' w2)))"

text \<open>\<^verbatim>\<open>update_task_complete\<close>, with the task ID the prompt returned. The success message is
  printed inside the loop, once for every task that carries the ID.\<close>

fun update_task_complete_loop :: "string \<Rightarrow> task list \<Rightarrow> bool \<times> task list \<times> world \<Rightarrow> bool \<times> task list \<times> world" where
  "update_task_complete_loop task_id [] st = st"
| "update_task_complete_loop task_id (task_data # rest) (task_found, updated_tasks, w) =
     (if tid task_data = task_id then
        update_task_complete_loop task_id rest
          (True, updated_tasks @ [task_data\<lparr>tstatus := ''Yes''\<rparr>],
           logging INFO (''Task ID '' @ task_id @ '' marked as complete'')
             (print_line []
               (print_line (''  Task ID '' @ task_id @ '' ('' @ apos @ ttitle task_data @ apos
                              @ '') has been marked as complete!'')
                 (print_header ''SUCCESS'' w))))
      else update_task_complete_loop task_id rest (task_found, updated_tasks @ [task_data], w))"

definition update_task_complete :: "string \<Rightarrow> world \<Rightarrow> world" where
  "update_task_complete task_id w =
     (let w1 = print_header ''MARK TASK AS COMPLETE'' w;
          tasks = read_all_tasks w1
      in case update_task_complete_loop task_id tasks (False, [], w1) of
           (task_found, updated_tasks, w2) \<Rightarrow>
             if task_found then write_all_tasks updated_tasks w2
             else
               print_line []
                 (print_line (''  Task ID '' @ apos @ task_id @ apos @ '' not found.'')
                   (print_header ''ERROR'' w2)))"

text \<open>\<^verbatim>\<open>reset_task_incomplete\<close>, with the task ID the prompt returned.\<close>

fun reset_task_incomplete_loop :: "string \<Rightarrow> task list \<Rightarrow> bool \<times> task list \<times> world \<Rightarrow> bool \<times> task list \<times> world" where
  "reset_task_incomplete_loop task_id [] st = st"
| "reset_task_incomplete_loop task_id (task_tuple # rest) (task_found, updated_tasks, w) =
     (if tid task_tuple = task_id then
        (if lower (strip (tstatus task_tuple)) = ''yes'' then
           reset_task_incomplete_loop task_id rest
             (True, updated_tasks @ [task_tuple\<lparr>tstatus := ''No''\<rparr>],
              logging INFO (''Task ID '' @ task_id @ '' reset to incomplete'')
                (print_line []
                  (print_line (''  Task ID '' @ task_id @ '' ('' @ apos @ ttitle task_tuple @ apos
                                 @ '') has been reset to incomplete!'')
                    (print_header ''SUCCESS'' w))))
         else
           reset_task_incomplete_loop task_id rest
             (task_found, updated_tasks @ [task_tuple],
              print_line []
                (print_line (''  Task ID '' @ task_id @ '' ('' @ apos @ ttitle task_tuple @ apos
                               @ '') is already incomplete.'')
                  (print_header ''INFO'' w))))
      else reset_task_incomplete_loop task_id rest (task_found, updated_tasks @ [task_tuple], w))"

definition reset_task_incomplete :: "string \<Rightarrow> world \<Rightarrow> world" where
  "reset_task_incomplete task_id w =
     (let w1 = print_header ''RESET TASK TO INCOMPLETE'' w;
          all_tasks = read_all_tasks w1
      in case reset_task_incomplete_loop task_id all_tasks (False, [], w1) of
           (task_found, updated_tasks, w2) \<Rightarrow>
             (let w3 = (if task_found then write_all_tasks updated_tasks w2 else w2)
              in if \<not> task_found then
                   logging WARNING (''Attempt to reset non-existent task ID '' @ task_id)
                     (print_line []
                       (print_line (''  Task ID '' @ apos @ task_id @ apos @ '' not found.'')
                         (print_header ''ERROR'' w3)))
                 else w3))"

section \<open>Identity and authentication\<close>

text \<open>The loop of \<^verbatim>\<open>login_user\<close> over the lines of the user file: the first line of three
  fields whose first two fields are the user name and the password entered.\<close>

fun login_loop :: "string \<Rightarrow> string \<Rightarrow> string list \<Rightarrow> user option" where
  "login_loop uname_in password_in [] = None"
| "login_loop uname_in password_in (line # rest) =
     (let user_data = split_cs (strip line)
      in if length user_data = 3 then
           (if user_data ! 0 = uname_in \<and> user_data ! 1 = password_in then
              Some \<lparr>username = user_data ! 0, password = user_data ! 1, role = user_data ! 2\<rparr>
            else login_loop uname_in password_in rest)
         else login_loop uname_in password_in rest)"

text \<open>\<^verbatim>\<open>login_user\<close>, with the stripped user name and the password the prompts returned.\<close>

definition login_user :: "string \<Rightarrow> string \<Rightarrow> world \<Rightarrow> user option \<times> world" where
  "login_user uname_in password_in w =
     (let w1 = print_header ''USER LOGIN'' w
      in case files w1 USER_FILE of
           None \<Rightarrow>
             (None, print_line []
                      (print_line ''  No users found. Please register first.''
                        (print_header ''ERROR'' w1)))
         | Some lines \<Rightarrow>
             (case login_loop uname_in password_in lines of
                Some u \<Rightarrow>
                  (Some u,
                   logging INFO (''User '' @ uname_in @ '' logged in successfully'')
                     (print_line []
                       (print_line (''  Role: '' @ role u)
                         (print_line (''  Welcome, '' @ username u @ ''!'')
                           (print_header ''SUCCESS'' w1)))))
              | None \<Rightarrow>
                  (None,
                   logging WARNING (''Failed login attempt for username: '' @ uname_in)
                     (print_line []
                       (print_line ''  Invalid username or password. Please try again.''
                         (print_header ''ERROR'' w1))))))"

section \<open>The report aggregator\<close>

text \<open>
  \<^verbatim>\<open>datetime.strptime(text, "%Y-%m-%d").date()\<close>. The format is four digits, a hyphen, a month
  written \<^verbatim>\<open>1\<close> to \<^verbatim>\<open>9\<close>, \<^verbatim>\<open>01\<close> to \<^verbatim>\<open>09\<close> or \<^verbatim>\<open>10\<close> to \<^verbatim>\<open>12\<close>, a hyphen, and a day
  written \<^verbatim>\<open>1\<close> to \<^verbatim>\<open>9\<close>, with a leading zero or blank, or \<^verbatim>\<open>10\<close> to \<^verbatim>\<open>31\<close>; nothing may
  follow, the year is at least 1 and the day exists in the month.
\<close>

definition year_field :: "string \<Rightarrow> nat option" where
  "year_field s =
     (if length s = 4 \<and> list_all is_digit s
      then Some (foldl (\<lambda>a c. 10 * a + digit_val c) 0 s) else None)"

definition month_field :: "string \<Rightarrow> nat option" where
  "month_field s =
     (case s of
        [a] \<Rightarrow> if is_digit a \<and> a \<noteq> CHR ''0'' then Some (digit_val a) else None
      | [a, b] \<Rightarrow>
          if a = CHR ''1'' \<and> (b = CHR ''0'' \<or> b = CHR ''1'' \<or> b = CHR ''2'') then Some (10 + digit_val b)
          else if a = CHR ''0'' \<and> is_digit b \<and> b \<noteq> CHR ''0'' then Some (digit_val b)
          else None
      | _ \<Rightarrow> None)"

definition day_field :: "string \<Rightarrow> nat option" where
  "day_field s =
     (case s of
        [a] \<Rightarrow> if is_digit a \<and> a \<noteq> CHR ''0'' then Some (digit_val a) else None
      | [a, b] \<Rightarrow>
          if a = CHR ''3'' \<and> (b = CHR ''0'' \<or> b = CHR ''1'') then Some (30 + digit_val b)
          else if (a = CHR ''1'' \<or> a = CHR ''2'') \<and> is_digit b then Some (10 * digit_val a + digit_val b)
          else if (a = CHR ''0'' \<or> a = CHR '' '') \<and> is_digit b \<and> b \<noteq> CHR ''0'' then Some (digit_val b)
          else None
      | _ \<Rightarrow> None)"

definition is_leap :: "nat \<Rightarrow> bool" where
  "is_leap y = (y mod 4 = 0 \<and> (y mod 100 \<noteq> 0 \<or> y mod 400 = 0))"

definition days_in_month :: "nat \<Rightarrow> nat \<Rightarrow> nat" where
  "days_in_month y m =
     (if m = 2 then (if is_leap y then 29 else 28)
      else if m = 4 \<or> m = 6 \<or> m = 9 \<or> m = 11 then 30 else 31)"

definition strptime_ymd :: "string \<Rightarrow> exn + date" where
  "strptime_ymd s =
     (case drop 4 s of
        [] \<Rightarrow> Inl (ValueError s)
      | h # r \<Rightarrow>
          if h \<noteq> CHR ''-'' then Inl (ValueError s)
          else
            (case dropWhile (\<lambda>c. c \<noteq> CHR ''-'') r of
               [] \<Rightarrow> Inl (ValueError s)
             | h2 # d \<Rightarrow>
                 (case (year_field (take 4 s), month_field (takeWhile (\<lambda>c. c \<noteq> CHR ''-'') r),
                        day_field d) of
                    (Some yy, Some mm, Some dd) \<Rightarrow>
                      if 1 \<le> yy \<and> dd \<le> days_in_month yy mm
                      then Inr \<lparr>year = yy, month = mm, day = dd\<rparr>
                      else Inl (ValueError s)
                  | _ \<Rightarrow> Inl (ValueError s))))"

definition date_less :: "date \<Rightarrow> date \<Rightarrow> bool" where
  "date_less a b =
     (year a < year b \<or> (year a = year b \<and> (month a < month b \<or> (month a = month b \<and> day a < day b))))"

text \<open>The overdue loop of the task overview: a due date that does not parse is skipped
  (\<^verbatim>\<open>except ValueError: continue\<close>).\<close>

fun overdue_loop :: "date \<Rightarrow> task list \<Rightarrow> nat \<Rightarrow> nat" where
  "overdue_loop current_date [] overdue = overdue"
| "overdue_loop current_date (t # rest) overdue =
     (if lower (strip (tstatus t)) = ''no'' then
        (case strptime_ymd (tdue t) of
           Inr due \<Rightarrow> overdue_loop current_date rest (if date_less due current_date then overdue + 1 else overdue)
         | Inl e \<Rightarrow> overdue_loop current_date rest overdue)
      else overdue_loop current_date rest overdue)"

text \<open>The overdue count of one user in the user overview: the generator expression parses
  each due date of an incomplete task with no handler, so the first one that does not
  parse raises out of the sum.\<close>

fun user_overdue_sum :: "date \<Rightarrow> task list \<Rightarrow> exn + nat" where
  "user_overdue_sum current_date [] = Inr 0"
| "user_overdue_sum current_date (t # rest) =
     (if lower (strip (tstatus t)) = ''no'' then
        (case strptime_ymd (tdue t) of
           Inl e \<Rightarrow> Inl e
         | Inr due \<Rightarrow>
             (case user_overdue_sum current_date rest of
                Inl e \<Rightarrow> Inl e
              | Inr n \<Rightarrow> Inr (if date_less due current_date then n + 1 else n)))
      else user_overdue_sum current_date rest)"

definition count_completed :: "task list \<Rightarrow> nat" where
  "count_completed ts = length (filter (\<lambda>t. lower (strip (tstatus t)) = ''yes'') ts)"

fun read_user_names :: "string list \<Rightarrow> string list \<Rightarrow> string list" where
  "read_user_names [] users = users"
| "read_user_names (line # rest) users =
     (let user_data = split_cs (strip line)
      in if length user_data = 3 then read_user_names rest (users @ [user_data ! 0])
         else read_user_names rest users)"

text \<open>The loop over the users that writes one section each into the open user overview; an
  exception leaves the sections written so far in the file.\<close>

fun user_sections_loop :: "date \<Rightarrow> task list \<Rightarrow> string list \<Rightarrow> user_overview \<Rightarrow> exn option \<times> user_overview" where
  "user_sections_loop current_date tasks [] report = (None, report)"
| "user_sections_loop current_date tasks (u # rest) report =
     (let user_tasks = filter (\<lambda>t. uname t = u) tasks;
          n = length user_tasks;
          n_completed = count_completed user_tasks
      in case user_overdue_sum current_date user_tasks of
           Inl e \<Rightarrow> (Some e, report)
         | Inr late \<Rightarrow>
             user_sections_loop current_date tasks rest
               (report\<lparr>sections := sections report @
                  [\<lparr>section_user = u, user_task_count = n, user_completed = n_completed,
                    user_incomplete = n - n_completed, user_overdue = late\<rparr>]\<rparr>))"

definition generate_reports :: "world \<Rightarrow> world" where
  "generate_reports w =
     (let tasks = read_all_tasks w;
          total = length tasks;
          completed = count_completed tasks;
          incomplete = total - completed;
          current_date = today w;
          overdue = overdue_loop current_date tasks 0;
          w1 = w\<lparr>task_overview_txt :=
                   Some \<lparr>total_tasks = total, completed_tasks = completed,
                         incomplete_tasks = incomplete, overdue_tasks = overdue\<rparr>,
                 calls := calls w @ [OpenWrite TASK_OVERVIEW_FILE]\<rparr>
      in case files w1 USER_FILE of
           None \<Rightarrow>
             logging ERROR ''Reports generation failed - task file not found''
               (print_line [] (print_line ''  No task file found.'' (print_header ''ERROR'' w1)))
         | Some lines \<Rightarrow>
             (let users = read_user_names lines [];
                  opened = \<lparr>total_users = length users, tracked_tasks = total,
                            sections = [], closed = False\<rparr>
              in case user_sections_loop current_date tasks users opened of
                   (Some e, report) \<Rightarrow>
                     handle_file_error ''generating reports'' e
                       (w1\<lparr>user_overview_txt := Some report,
                           calls := calls w1 @ [OpenWrite USER_OVERVIEW_FILE]\<rparr>)
                 | (None, report) \<Rightarrow>
                     logging INFO ''Reports generated successfully''
                       (print_line []
                         (print_line (''  - '' @ USER_OVERVIEW_FILE)
                           (print_line (''  - '' @ TASK_OVERVIEW_FILE)
                             (print_line ''  Reports generated successfully!''
                               (print_header ''SUCCESS''
                                 (w1\<lparr>user_overview_txt := Some (report\<lparr>closed := True\<rparr>),
                                     calls := calls w1 @ [OpenWrite USER_OVERVIEW_FILE]\<rparr>))))))))"

section \<open>The session of one user over the own tasks\<close>

text \<open>\<^verbatim>\<open>str(n)\<close> for a count.\<close>

fun str_nat :: "nat \<Rightarrow> string" where
  "str_nat n = (if n < 10 then [char_of (48 + n)] else str_nat (n div 10) @ [char_of (48 + n mod 10)])"

declare str_nat.simps [simp del]

definition field_line :: "string \<Rightarrow> string \<Rightarrow> string" where
  "field_line label v = ''  '' @ label @ replicate (20 - length label) (CHR '' '') @ '' | '' @ v"

definition display_task_for_user :: "task \<Rightarrow> world \<Rightarrow> world" where
  "display_task_for_user t w =
     print_line (''  '' @ replicate 76 (CHR ''-''))
       (print_line (field_line ''Status'' (tstatus t))
         (print_line (field_line ''Assigned Date'' (tassigned t))
           (print_line (field_line ''Due Date'' (tdue t))
             (print_line (field_line ''Description'' (tdesc t))
               (print_line (field_line ''Task Title'' (ttitle t))
                 (print_line (field_line ''Task ID'' (tid t)) w))))))"

definition display_my_tasks :: "task list \<Rightarrow> world \<Rightarrow> world" where
  "display_my_tasks user_tasks w =
     print_line (''  Total tasks assigned to you: '' @ str_nat (length user_tasks))
       (foldl (\<lambda>v t. display_task_for_user t v) w user_tasks)"

text \<open>
  Action 1 of \<^verbatim>\<open>view_my_tasks\<close>, the status toggle, on the task selected from the list
  \<^verbatim>\<open>user_tasks\<close>: the new status is computed from the status of the selected tuple and
  written to every task of the file that carries its ID.
\<close>

definition toggle_status :: "task \<Rightarrow> world \<Rightarrow> world" where
  "toggle_status selected_task w =
     (let new_status = (if tstatus selected_task = ''Yes'' then ''No'' else ''Yes'');
          all_file_tasks = read_all_tasks w;
          updated_tasks =
            map (\<lambda>t. if tid t = tid selected_task then t\<lparr>tstatus := new_status\<rparr> else t) all_file_tasks;
          w1 = write_all_tasks updated_tasks w
      in logging INFO (''Task ID '' @ tid selected_task @ '' status updated to '' @ new_status)
           (print_line []
             (print_line (''  Task '' @ apos @ ttitle selected_task @ apos @ '' has been marked as ''
                            @ (if new_status = ''Yes'' then ''complete'' else ''incomplete'') @ ''!'')
               (print_header ''SUCCESS'' w1))))"

text \<open>
  Action 2 of \<^verbatim>\<open>view_my_tasks\<close>, the edit, on the selected task, with the answer to the
  edit menu and the validated new user name and new due date (each is asked for, and
  used, only under the options that name it). The result is the world and the list
  \<^verbatim>\<open>user_tasks\<close>, which is read again after a write.
\<close>

definition edit_task :: "string \<Rightarrow> task \<Rightarrow> string \<Rightarrow> string \<Rightarrow> string \<Rightarrow> task list \<Rightarrow> world \<Rightarrow> world \<times> task list" where
  "edit_task my_username selected_task edit_options entered_username entered_due_date user_tasks w =
     (if lower (strip (tstatus selected_task)) = ''yes'' then
        (print_line []
           (print_line ''  Cannot edit a completed task. Please mark it as incomplete first.''
             (print_header ''ERROR'' w)), user_tasks)
      else
        (let w1 = print_line []
                    (print_line (''  Current Due Date: '' @ tdue selected_task)
                      (print_line (''  Current Assigned User: '' @ uname selected_task)
                        (print_line (''  Task: '' @ ttitle selected_task)
                          (print_header ''EDIT TASK'' w))));
             new_username = (if edit_options = ''1'' \<or> edit_options = ''3''
                             then entered_username else uname selected_task);
             new_due_date = (if edit_options = ''2'' \<or> edit_options = ''3''
                             then entered_due_date else tdue selected_task)
         in if edit_options = ''1'' \<or> edit_options = ''2'' \<or> edit_options = ''3'' then
              (let all_file_tasks = read_all_tasks w1;
                   updated_tasks =
                     map (\<lambda>t. if tid t = tid selected_task
                               then t\<lparr>uname := new_username, tdue := new_due_date\<rparr> else t)
                       all_file_tasks;
                   task_updated = (\<exists>t \<in> set all_file_tasks. tid t = tid selected_task)
               in if task_updated then
                    (let w2 = write_all_tasks updated_tasks w1;
                         w3 = print_header ''SUCCESS'' w2;
                         w4 = print_line (''  Task '' @ apos @ ttitle selected_task @ apos @ '' has been updated!'') w3;
                         w5 = (if new_username \<noteq> uname selected_task
                               then print_line (''  New Assigned User: '' @ new_username) w4 else w4);
                         w6 = (if new_due_date \<noteq> tdue selected_task
                               then print_line (''  New Due Date: '' @ new_due_date) w5 else w5);
                         w7 = logging INFO (''Task ID '' @ tid selected_task @ '' updated - User: ''
                                              @ new_username @ '', Due: '' @ new_due_date)
                                (print_line [] w6);
                         reloaded = filter (\<lambda>t. uname t = my_username) (read_all_tasks w7);
                         w8 = print_header (''MY TASKS - '' @ upper my_username) w7;
                         w9 = (if length reloaded = 0
                               then print_line (''  No tasks found for user '' @ apos @ my_username @ apos @ ''.'') w8
                               else display_my_tasks reloaded w8)
                     in (print_line [] w9, reloaded))
                  else (w1, user_tasks))
            else (w1, user_tasks)))"

text \<open>
  One pass of the loop of \<^verbatim>\<open>view_my_tasks\<close> reads these answers: \<open>chosen\<close> is what
  \<^verbatim>\<open>get_valid_task_number(user_tasks)\<close> returns (\<open>None\<close> for \<^verbatim>\<open>-1\<close> or an empty
  answer, else an ID of the list), \<open>action_menu\<close> and \<open>edit_options\<close> are the stripped
  menu answers, \<open>entered_username\<close> and \<open>entered_due_date\<close> are what
  \<^verbatim>\<open>get_validated_input\<close> returns, and \<open>another\<close> is the stripped, lower-cased answer to
  the last question.
\<close>

record step =
  chosen :: "string option"
  action_menu :: string
  edit_options :: string
  entered_username :: string
  entered_due_date :: string
  another :: string

text \<open>
  The loop over the answers of the session. The list \<^verbatim>\<open>user_tasks\<close> is kept from one pass
  to the next and replaced only where the edit reads it again. Running out of answers is
  the \<^verbatim>\<open>EOFError\<close> of \<^verbatim>\<open>input\<close>; an ID that is not in the list leaves
  \<^verbatim>\<open>selected_task\<close> at \<^verbatim>\<open>None\<close>, which the unpacking refuses with a \<^verbatim>\<open>TypeError\<close>.
\<close>

fun view_my_tasks_loop :: "string \<Rightarrow> task list \<Rightarrow> step list \<Rightarrow> world \<Rightarrow> exn option \<times> world" where
  "view_my_tasks_loop my_username user_tasks [] w = (Some EOFError, w)"
| "view_my_tasks_loop my_username user_tasks (st # rest) w =
     (case chosen st of
        None \<Rightarrow> (None, w)
      | Some task_id_selection \<Rightarrow>
          (case find (\<lambda>t. tid t = task_id_selection) user_tasks of
             None \<Rightarrow> (Some TypeError, w)
           | Some selected_task \<Rightarrow>
               (let w1 = print_line []
                           (print_line (''  Current Status: '' @ tstatus selected_task)
                             (print_header (''TASK OPTIONS - '' @ ttitle selected_task) w))
                in if action_menu st = ''1'' then
                     (let w2 = toggle_status selected_task w1
                      in if another st = ''y'' then view_my_tasks_loop my_username user_tasks rest w2
                         else (None, w2))
                   else if action_menu st = ''2'' then
                     (case edit_task my_username selected_task (edit_options st) (entered_username st)
                             (entered_due_date st) user_tasks w1 of
                        (w2, user_tasks2) \<Rightarrow>
                          if another st = ''y'' then view_my_tasks_loop my_username user_tasks2 rest w2
                          else (None, w2))
                   else if action_menu st = ''3'' then (None, w1)
                   else
                     (let w2 = print_line ''  Error: Invalid choice. Please enter 1, 2, or 3.'' w1
                      in if another st = ''y'' then view_my_tasks_loop my_username user_tasks rest w2
                         else (None, w2)))))"

text \<open>\<^verbatim>\<open>view_my_tasks\<close>, with the validated user name and the answers of the session.\<close>

definition view_my_tasks :: "string \<Rightarrow> step list \<Rightarrow> world \<Rightarrow> exn option \<times> world" where
  "view_my_tasks my_username answers w =
     (let all_tasks = read_all_tasks w;
          user_tasks = filter (\<lambda>t. uname t = my_username) all_tasks;
          w1 = print_header (''MY TASKS - '' @ upper my_username) w
      in if length user_tasks = 0 then
           (None, print_line []
                    (print_line (''  No tasks found for user '' @ apos @ my_username @ apos @ ''.'') w1))
         else view_my_tasks_loop my_username user_tasks answers
                (print_line [] (display_my_tasks user_tasks w1)))"

section \<open>Vocabulary of the properties\<close>

text \<open>A field that holds no separator, and a task that \<^verbatim>\<open>write_all_tasks\<close> followed by
  \<^verbatim>\<open>read_all_tasks\<close> gives back unchanged: no field holds the separator, the ID does not
  start and the status does not end with white space, and the status is not empty.\<close>

fun no_sep :: "string \<Rightarrow> bool" where
  "no_sep [] = True"
| "no_sep [c] = True"
| "no_sep (c # d # cs) = (\<not> (c = CHR '','' \<and> d = CHR '' '') \<and> no_sep (d # cs))"

definition clean_task :: "task \<Rightarrow> bool" where
  "clean_task t =
     (list_all no_sep (task_fields t) \<and> (tid t = [] \<or> \<not> is_space (hd (tid t))) \<and>
      tstatus t \<noteq> [] \<and> \<not> is_space (last (tstatus t)))"

text \<open>The integer ID that \<^verbatim>\<open>get_next_task_id\<close> reads from a line, and the IDs so stored in
  a file.\<close>

definition id_of_line :: "string \<Rightarrow> int option" where
  "id_of_line line =
     (let task_data = split_cs (strip line)
      in if length task_data = 7 then py_int (task_data ! 0) else None)"

definition stored_ids :: "string list \<Rightarrow> int set" where
  "stored_ids lines = set (List.map_filter id_of_line lines)"

text \<open>The integer IDs of a list of tasks.\<close>

definition task_ids :: "task list \<Rightarrow> int set" where
  "task_ids ts = set (List.map_filter (\<lambda>t. py_int (tid t)) ts)"

text \<open>The test of \<^verbatim>\<open>delete_task\<close> on one task.\<close>

definition matches :: "string \<Rightarrow> task \<Rightarrow> bool" where
  "matches task_identifier t = (tid t = task_identifier \<or> ttitle t = task_identifier)"

text \<open>A world with no file and an empty console and log, on 2 January 2024, and the
  same with a task file or a user file.\<close>

definition fresh_world :: world where
  "fresh_world =
     \<lparr>files = (\<lambda>name. None), task_overview_txt = None, user_overview_txt = None,
      console = [], logged = [], calls = [], copy_ok = True,
      now_stamp = ''20240102_030405'', today = \<lparr>year = 2024, month = 1, day = 2\<rparr>\<rparr>"

definition with_tasks :: "string list \<Rightarrow> world \<Rightarrow> world" where
  "with_tasks lines w = w\<lparr>files := (files w)(TASK_FILE := Some lines)\<rparr>"

definition with_users :: "string list \<Rightarrow> world \<Rightarrow> world" where
  "with_users lines w = w\<lparr>files := (files w)(USER_FILE := Some lines)\<rparr>"

text \<open>Sample files: two tasks with the IDs 1 and 2, and two tasks with the IDs 1 and 5.\<close>

definition two_task_lines :: "string list" where
  "two_task_lines =
     [''1, alice, T1, D, 2030-01-01, 2024-01-01, No'' @ newline,
      ''2, bob, T2, D, 2030-01-01, 2024-01-01, Yes'' @ newline]"

definition gap_lines :: "string list" where
  "gap_lines =
     [''1, alice, T1, D, 2030-01-01, 2024-01-01, No'' @ newline,
      ''5, bob, T5, D, 2030-01-01, 2024-01-01, No'' @ newline]"

definition two_tasks :: world where
  "two_tasks = with_tasks two_task_lines fresh_world"

text \<open>Sample files: a line of six fields before a line of seven whose ID is not a
  number, and a task whose title is the ID of another task.\<close>

definition mixed_lines :: "string list" where
  "mixed_lines =
     [''1, alice, T1, D, 2030-01-01, No'' @ newline,
      ''abc, bob, T2, D, 2030-01-01, 2024-01-01, No'' @ newline]"


text \<open>The task that the status toggle leaves behind for a selected task.\<close>

definition flipped :: "task \<Rightarrow> task" where
  "flipped t = t\<lparr>tstatus := (if tstatus t = ''Yes'' then ''No'' else ''Yes'')\<rparr>"

text \<open>More sample data: a user file with one complete record; one task of alice, not completed; a user and
  two tasks of which the first has a due date that is no date; and two passes of a
  session of alice, the status toggle of task 1 and the reassignment of task 1 to bob.\<close>

definition one_user_lines :: "string list" where
  "one_user_lines = [''alice, secret1, Admin'' @ newline]"

definition one_user :: world where
  "one_user = with_users one_user_lines fresh_world"

definition alice_task :: task where
  "alice_task = \<lparr>tid = ''1'', uname = ''alice'', ttitle = ''T1'', tdesc = ''D'',
                  tdue = ''2030-01-01'', tassigned = ''2024-01-01'', tstatus = ''No''\<rparr>"

definition one_task :: world where
  "one_task = with_tasks [task_line alice_task] fresh_world"

definition bad_date_world :: world where
  "bad_date_world =
     with_users one_user_lines
       (with_tasks [''1, alice, T1, D, soon, 2024-01-01, No'' @ newline,
                    ''2, alice, T2, D, 2023-12-31, 2023-12-01, No'' @ newline] fresh_world)"

definition toggle_step :: step where
  "toggle_step = \<lparr>chosen = Some ''1'', action_menu = ''1'', edit_options = [],
                  entered_username = [], entered_due_date = [], another = ''y''\<rparr>"

definition reassign_step :: step where
  "reassign_step = \<lparr>chosen = Some ''1'', action_menu = ''2'', edit_options = ''1'',
                    entered_username = ''bob'', entered_due_date = [], another = ''n''\<rparr>"

section \<open>Splitting, joining and reading back\<close>

lemma split_cs_nonempty: "split_cs s \<noteq> []"
  by (induction s rule: split_cs.induct) (auto split: list.splits)

lemma split_cs_no_sep: "no_sep f \<Longrightarrow> split_cs (f @ CHR '','' # CHR '' '' # rest) = f # split_cs rest"
proof (induction f rule: no_sep.induct)
  case 1
  show ?case by simp
next
  case (2 c)
  show ?case by simp
next
  case (3 c d cs)
  then have ih: "split_cs ((d # cs) @ CHR '','' # CHR '' '' # rest) = (d # cs) # split_cs rest" by simp
  have ns: "\<not> (c = CHR '','' \<and> d = CHR '' '')" using 3(2) by simp
  have "split_cs (c # d # (cs @ CHR '','' # CHR '' '' # rest)) = (c # d # cs) # split_cs rest"
    using ih ns by simp
  then show ?case by simp
qed

lemma split_cs_single: "no_sep f \<Longrightarrow> split_cs f = [f]"
  by (induction f rule: no_sep.induct) auto

lemma split_join_cs: "fs \<noteq> [] \<Longrightarrow> list_all no_sep fs \<Longrightarrow> split_cs (join_cs fs) = fs"
proof (induction fs rule: join_cs.induct)
  case 1
  then show ?case by simp
next
  case (2 f)
  then show ?case by (simp add: split_cs_single)
next
  case (3 f g fs)
  then have "split_cs (join_cs (g # fs)) = g # fs" by simp
  moreover have "no_sep f" using 3(3) by simp
  ultimately show ?case by (simp add: split_cs_no_sep del: split_cs.simps)
qed

lemma split_cs_first: "split_cs (d # cs) = f # fs \<Longrightarrow> f = [] \<or> hd f = d"
  by (cases cs) (auto split: if_splits list.splits)

lemma split_cs_fields_no_sep: "list_all no_sep (split_cs s)"
proof (induction s rule: split_cs.induct)
  case 1
  show ?case by simp
next
  case (2 c)
  show ?case by simp
next
  case (3 c d cs)
  show ?case
  proof (cases "c = CHR '','' \<and> d = CHR '' ''")
    case True
    then show ?thesis using 3(1) by simp
  next
    case False
    obtain f fs where e: "split_cs (d # cs) = f # fs"
      using split_cs_nonempty [of "d # cs"] by (cases "split_cs (d # cs)") auto
    have a: "list_all no_sep (f # fs)" using 3(2) False e by simp
    have "f = [] \<or> hd f = d" using e by (rule split_cs_first)
    then have "no_sep (c # f)" using a False by (cases f) auto
    moreover have "split_cs (c # d # cs) = (c # f) # fs" using False e by simp
    ultimately show ?thesis using a by simp
  qed
qed

lemma split_cs_hd: "s \<noteq> [] \<Longrightarrow> hd (split_cs s) = [] \<or> hd (hd (split_cs s)) = hd s"
  by (metis split_cs_first split_cs_nonempty hd_Cons_tl)

lemma split_cs_last:
  "s \<noteq> [] \<Longrightarrow> \<not> is_space (last s) \<Longrightarrow> last (split_cs s) \<noteq> [] \<and> last (last (split_cs s)) = last s"
proof (induction s rule: split_cs.induct)
  case 1
  then show ?case by simp
next
  case (2 c)
  show ?case by simp
next
  case (3 c d cs)
  show ?case
  proof (cases "c = CHR '','' \<and> d = CHR '' ''")
    case True
    have "cs \<noteq> []" using True 3(4) by (auto simp: is_space_def)
    then show ?thesis using True 3(1) 3(4) split_cs_nonempty [of cs] by simp
  next
    case False
    obtain f fs where e: "split_cs (d # cs) = f # fs"
      using split_cs_nonempty [of "d # cs"] by (cases "split_cs (d # cs)") auto
    have ih: "last (f # fs) \<noteq> [] \<and> last (last (f # fs)) = last (d # cs)"
      using 3(2) [OF False] 3(4) e by simp
    have sp: "split_cs (c # d # cs) = (c # f) # fs" using False e by simp
    show ?thesis
    proof (cases fs)
      case Nil
      then show ?thesis using ih sp by simp
    next
      case (Cons g gs)
      then show ?thesis using ih sp by simp
    qed
  qed
qed

lemma strip_hd: "strip s \<noteq> [] \<Longrightarrow> \<not> is_space (hd (strip s))"
  unfolding strip_def
  by (metis dropWhile_eq_self_iff hd_dropWhile last_appendR last_rev
    rev.simps(1) rev_swap takeWhile_dropWhile_id)

lemma strip_last: "strip s \<noteq> [] \<Longrightarrow> \<not> is_space (last (strip s))"
  unfolding strip_def
  by (metis hd_dropWhile last_rev rev_is_Nil_conv)

lemma strip_fixed:
  assumes "u \<noteq> []" "\<not> is_space (hd u)" "\<not> is_space (last u)"
  shows "strip (u @ newline) = u"
proof -
  obtain x xs where u: "u = x # xs" using assms(1) by (cases u) auto
  have a: "dropWhile is_space (u @ newline) = u @ newline"
    using assms(2) u by simp
  obtain y ys where r: "rev u = y # ys" using assms(1) by (cases "rev u") auto
  have "y = last u" using r by (metis hd_rev list.sel(1))
  then have ny: "\<not> is_space y" using assms(3) by simp
  have "dropWhile is_space (rev (u @ newline)) = rev u"
    using r ny by (simp add: newline_def is_space_def)
  then show ?thesis by (simp add: strip_def a)
qed

lemma seven_fields: "length fs = 7 \<Longrightarrow> task_fields (as_task fs) = fs"
  by (auto simp: as_task_def task_fields_def numeral_eq_Suc length_Suc_conv)

lemma as_task_fields: "as_task (task_fields t) = t"
  by (simp add: as_task_def task_fields_def)

lemma clean_task_of_line:
  assumes "length (split_cs (strip l)) = 7"
  shows "clean_task (as_task (split_cs (strip l)))"
proof -
  let ?s = "strip l" and ?fs = "split_cs (strip l)"
  have ne: "?s \<noteq> []" using assms by (cases ?s) auto
  have f: "task_fields (as_task ?fs) = ?fs" using assms by (rule seven_fields)
  have a: "list_all no_sep ?fs" by (rule split_cs_fields_no_sep)
  have h: "hd ?fs = [] \<or> hd (hd ?fs) = hd ?s" using ne by (rule split_cs_hd)
  have "hd ?fs = tid (as_task ?fs)" using assms by (cases ?fs) (auto simp: as_task_def)
  then have b: "tid (as_task ?fs) = [] \<or> \<not> is_space (hd (tid (as_task ?fs)))"
    using h strip_hd [OF ne] by auto
  have la: "last ?fs \<noteq> [] \<and> last (last ?fs) = last ?s"
    using ne strip_last [OF ne] by (rule split_cs_last)
  have "last ?fs = tstatus (as_task ?fs)"
    using f by (metis last.simps list.distinct(1) task_fields_def last_ConsR)
  then have c: "tstatus (as_task ?fs) \<noteq> [] \<and> \<not> is_space (last (tstatus (as_task ?fs)))"
    using la strip_last [OF ne] by auto
  show ?thesis unfolding clean_task_def using a b c f by simp
qed

lemma join_cs_hd: "fs \<noteq> [] \<Longrightarrow> hd fs \<noteq> [] \<Longrightarrow> hd (join_cs fs) = hd (hd fs)"
  by (induction fs rule: join_cs.induct) auto

lemma join_cs_hd_empty: "length fs \<ge> 2 \<Longrightarrow> hd fs = [] \<Longrightarrow> hd (join_cs fs) = CHR '',''"
  by (induction fs rule: join_cs.induct) auto

lemma join_cs_last: "fs \<noteq> [] \<Longrightarrow> last fs \<noteq> [] \<Longrightarrow> join_cs fs \<noteq> [] \<and> last (join_cs fs) = last (last fs)"
  by (induction fs rule: join_cs.induct) auto

lemma reread_clean:
  assumes "clean_task t"
  shows "split_cs (strip (task_line t)) = task_fields t"
proof -
  let ?u = "join_cs (task_fields t)"
  have l: "?u \<noteq> [] \<and> last ?u = last (tstatus t)"
    using assms join_cs_last [of "task_fields t"] by (simp add: clean_task_def task_fields_def)
  have h: "\<not> is_space (hd ?u)"
  proof (cases "tid t = []")
    case True
    then have "hd ?u = CHR '',''" using join_cs_hd_empty [of "task_fields t"] by (simp add: task_fields_def)
    then show ?thesis by (simp add: is_space_def)
  next
    case False
    then have "hd ?u = hd (tid t)" using join_cs_hd [of "task_fields t"] by (simp add: task_fields_def)
    then show ?thesis using assms False by (simp add: clean_task_def)
  qed
  have "strip (?u @ newline) = ?u" using l h assms by (intro strip_fixed) (simp_all add: clean_task_def)
  moreover have "split_cs ?u = task_fields t"
    using assms by (intro split_join_cs) (simp_all add: clean_task_def task_fields_def)
  ultimately show ?thesis by (simp add: task_line_def)
qed

lemma read_tasks_loop_filter:
  "read_tasks_loop lines acc =
     acc @ map (\<lambda>l. as_task (split_cs (strip l))) (filter (\<lambda>l. length (split_cs (strip l)) = 7) lines)"
  by (induction lines arbitrary: acc) (simp_all add: Let_def)

lemma read_tasks_loop_clean:
  "\<forall>t \<in> set ts. clean_task t \<Longrightarrow> read_tasks_loop (map task_line ts) acc = acc @ ts"
proof (induction ts arbitrary: acc)
  case Nil
  show ?case by simp
next
  case (Cons t ts)
  have e: "split_cs (strip (task_line t)) = task_fields t" using Cons.prems by (simp add: reread_clean)
  have n: "length (task_fields t) = 7" by (simp add: task_fields_def)
  have ih: "\<And>a. read_tasks_loop (map task_line ts) a = a @ ts" using Cons by simp
  show ?case by (simp add: Let_def e n as_task_fields ih)
qed

section \<open>The loops\<close>

lemma next_id_loop_ge: "max_id \<le> next_id_loop lines max_id"
proof (induction lines arbitrary: max_id)
  case Nil
  show ?case by simp
next
  case (Cons line rest)
  have a: "max_id \<le> next_id_loop rest max_id" by (rule Cons.IH)
  have b: "\<And>k. max max_id k \<le> next_id_loop rest (max max_id k)" by (rule Cons.IH)
  have c: "\<And>k. max_id \<le> next_id_loop rest (max max_id k)"
    using b by (meson max.bounded_iff)
  show ?case using a c by (simp add: Let_def split: option.split)
qed

lemma next_id_loop_bound:
  "line \<in> set lines \<Longrightarrow> length (split_cs (strip line)) = 7 \<Longrightarrow>
   py_int (split_cs (strip line) ! 0) = Some n \<Longrightarrow> n \<le> next_id_loop lines max_id"
proof (induction lines arbitrary: max_id)
  case Nil
  then show ?case by simp
next
  case (Cons l rest)
  show ?case
  proof (cases "line = l")
    case True
    have "max max_id n \<le> next_id_loop rest (max max_id n)" by (rule next_id_loop_ge)
    then have "n \<le> next_id_loop rest (max max_id n)" by (meson max.bounded_iff)
    then show ?thesis using True Cons.prems by (simp add: Let_def)
  next
    case False
    then have "line \<in> set rest" using Cons.prems by simp
    then have "\<And>m. n \<le> next_id_loop rest m" using Cons.IH Cons.prems by blast
    then show ?thesis by (simp add: Let_def split: option.split)
  qed
qed

lemma next_id_loop_tight:
  "next_id_loop lines max_id = max_id \<or>
   (\<exists>line \<in> set lines. length (split_cs (strip line)) = 7 \<and>
      py_int (split_cs (strip line) ! 0) = Some (next_id_loop lines max_id))"
proof (induction lines arbitrary: max_id)
  case Nil
  show ?case by simp
next
  case (Cons l rest)
  show ?case
  proof (cases "length (split_cs (strip l)) = 7")
    case False
    then show ?thesis using Cons.IH [of max_id] by (auto simp: Let_def)
  next
    case seven: True
    show ?thesis
    proof (cases "py_int (split_cs (strip l) ! 0)")
      case None
      then show ?thesis using seven Cons.IH [of max_id] by (auto simp: Let_def)
    next
      case (Some k)
      then show ?thesis using seven Cons.IH [of "max max_id k"]
        by (auto simp: Let_def max_def split: if_splits)
    qed
  qed
qed

section \<open>Effects of the primitive operations\<close>

lemma files_print_header [simp]: "files (print_header t w) = files w"
  by (simp add: print_header_def)
lemma files_print_line [simp]: "files (print_line t w) = files w"
  by (simp add: print_line_def)
lemma files_logging [simp]: "files (logging lv t w) = files w"
  by (simp add: logging_def)
lemma calls_print_header [simp]: "calls (print_header t w) = calls w"
  by (simp add: print_header_def)
lemma calls_print_line [simp]: "calls (print_line t w) = calls w"
  by (simp add: print_line_def)
lemma calls_logging [simp]: "calls (logging lv t w) = calls w"
  by (simp add: logging_def)
lemma console_print_header [simp]: "console (print_header t w) = console w @ [Header t]"
  by (simp add: print_header_def)
lemma console_print_line [simp]: "console (print_line t w) = console w @ [Line t]"
  by (simp add: print_line_def)
lemma console_logging [simp]: "console (logging lv t w) = console w"
  by (simp add: logging_def)
lemma logged_print_header [simp]: "logged (print_header t w) = logged w"
  by (simp add: print_header_def)
lemma logged_print_line [simp]: "logged (print_line t w) = logged w"
  by (simp add: print_line_def)
lemma logged_logging [simp]: "logged (logging lv t w) = logged w @ [Log lv t]"
  by (simp add: logging_def)

lemma read_all_tasks_files: "files w TASK_FILE = files v TASK_FILE \<Longrightarrow> read_all_tasks w = read_all_tasks v"
  by (simp add: read_all_tasks_def)

lemma read_all_tasks_print_header [simp]: "read_all_tasks (print_header t w) = read_all_tasks w"
  by (simp add: read_all_tasks_def)
lemma read_all_tasks_print_line [simp]: "read_all_tasks (print_line t w) = read_all_tasks w"
  by (simp add: read_all_tasks_def)
lemma read_all_tasks_logging [simp]: "read_all_tasks (logging lv t w) = read_all_tasks w"
  by (simp add: read_all_tasks_def)

lemma backup_name_differs: "TASK_FILE @ ''.backup_'' @ stamp \<noteq> TASK_FILE"
  by simp

lemma files_backup_file: "files (snd (backup_file TASK_FILE w)) TASK_FILE = files w TASK_FILE"
  by (simp add: backup_file_def Let_def split: option.split)

lemma read_all_tasks_backup [simp]: "read_all_tasks (snd (backup_file TASK_FILE w)) = read_all_tasks w"
  by (rule read_all_tasks_files) (rule files_backup_file)

lemma calls_backup_file:
  "calls (snd (backup_file name w)) =
     calls w @ [Copy name (name @ ''.backup_'' @ now_stamp w) (files w name \<noteq> None \<and> copy_ok w)]"
  by (simp add: backup_file_def Let_def split: option.split)

lemma console_backup_file [simp]: "console (snd (backup_file name w)) = console w"
  by (simp add: backup_file_def Let_def split: option.split)

lemma read_all_tasks_clean: "t \<in> set (read_all_tasks w) \<Longrightarrow> clean_task t"
  by (auto simp: read_all_tasks_def read_tasks_loop_filter clean_task_of_line split: option.splits)

lemma read_all_tasks_write:
  "\<forall>t \<in> set ts. clean_task t \<Longrightarrow> read_all_tasks (write_all_tasks ts w) = ts"
  using read_tasks_loop_clean [of ts "[]"] by (simp add: read_all_tasks_def write_all_tasks_def)


lemma delete_loop_filter:
  "fst (delete_loop ident ts (found, info, acc)) = (found \<or> (\<exists>t \<in> set ts. matches ident t)) \<and>
   snd (snd (delete_loop ident ts (found, info, acc))) = acc @ filter (\<lambda>t. \<not> matches ident t) ts"
  by (induction ts arbitrary: found info acc) (auto simp: matches_def)

lemma delete_task_found:
  assumes "\<exists>t \<in> set (read_all_tasks w). matches ident t"
  shows "\<exists>info. delete_task ident w =
     logging INFO (''Task deleted - '' @ info)
       (print_line []
         (print_line (''  '' @ info @ '' has been deleted.'')
           (print_header ''SUCCESS''
             (write_all_tasks (filter (\<lambda>t. \<not> matches ident t) (read_all_tasks w))
               (snd (backup_file TASK_FILE (print_header ''DELETE TASK'' w)))))))"
proof -
  obtain f i u where e: "delete_loop ident (read_all_tasks w) (False, [], []) = (f, i, u)"
    by (cases "delete_loop ident (read_all_tasks w) (False, [], [])") auto
  from delete_loop_filter [of ident "read_all_tasks w" False "[]" "[]"] assms e
  have "f" and "u = filter (\<lambda>t. \<not> matches ident t) (read_all_tasks w)" by auto
  then show ?thesis using e by (intro exI [of _ i]) (simp add: delete_task_def Let_def)
qed

lemma delete_task_not_found:
  assumes "\<forall>t \<in> set (read_all_tasks w). \<not> matches ident t"
  shows "delete_task ident w =
     print_line []
       (print_line (''  Task '' @ apos @ ident @ apos @ '' not found.'')
         (print_header ''ERROR'' (snd (backup_file TASK_FILE (print_header ''DELETE TASK'' w)))))"
proof -
  obtain f i u where e: "delete_loop ident (read_all_tasks w) (False, [], []) = (f, i, u)"
    by (cases "delete_loop ident (read_all_tasks w) (False, [], [])") auto
  from delete_loop_filter [of ident "read_all_tasks w" False "[]" "[]"] assms e have "\<not> f" by auto
  then show ?thesis using e by (simp add: delete_task_def Let_def)
qed

lemma stored_ids_iff:
  "n \<in> stored_ids lines \<longleftrightarrow>
     (\<exists>line \<in> set lines. length (split_cs (strip line)) = 7 \<and> py_int (split_cs (strip line) ! 0) = Some n)"
  by (auto simp: stored_ids_def id_of_line_def Let_def List.map_filter_def image_iff split: if_splits)

lemma task_ids_iff: "n \<in> task_ids ts \<longleftrightarrow> (\<exists>t \<in> set ts. py_int (tid t) = Some n)"
  by (auto simp: task_ids_def List.map_filter_def image_iff)

lemma tid_as_task [simp]: "tid (as_task fs) = fs ! 0"
  by (simp add: as_task_def)

lemma stored_ids_tasks: "stored_ids lines = task_ids (read_tasks_loop lines [])"
  by (auto simp: stored_ids_iff task_ids_iff read_tasks_loop_filter)

lemma next_id_loop_Max: "next_id_loop lines 0 = Max (insert 0 (stored_ids lines))"
proof -
  have f: "finite (insert 0 (stored_ids lines))" by (simp add: stored_ids_def)
  have a: "\<forall>n \<in> stored_ids lines. n \<le> next_id_loop lines 0"
    by (auto simp: stored_ids_iff intro: next_id_loop_bound)
  have b: "next_id_loop lines 0 = 0 \<or> next_id_loop lines 0 \<in> stored_ids lines"
    using next_id_loop_tight [of lines 0] by (auto simp: stored_ids_iff)
  have c: "0 \<le> next_id_loop lines 0" by (rule next_id_loop_ge)
  have "Max (insert 0 (stored_ids lines)) = next_id_loop lines 0"
  proof (rule Max_eqI [OF f])
    fix y assume "y \<in> insert 0 (stored_ids lines)"
    then show "y \<le> next_id_loop lines 0" using a c by auto
  next
    show "next_id_loop lines 0 \<in> insert 0 (stored_ids lines)" using b by auto
  qed
  then show ?thesis by simp
qed

lemma get_next_task_id_Max: "get_next_task_id w = Max (insert 0 (task_ids (read_all_tasks w))) + 1"
  by (simp add: get_next_task_id_def read_all_tasks_def next_id_loop_Max stored_ids_tasks task_ids_def
      List.map_filter_def split: option.split)

lemma read_all_tasks_delete_task:
  "read_all_tasks (delete_task ident w) = filter (\<lambda>t. \<not> matches ident t) (read_all_tasks w)"
proof (cases "\<exists>t \<in> set (read_all_tasks w). matches ident t")
  case True
  then obtain info where d: "delete_task ident w =
     logging INFO (''Task deleted - '' @ info)
       (print_line []
         (print_line (''  '' @ info @ '' has been deleted.'')
           (print_header ''SUCCESS''
             (write_all_tasks (filter (\<lambda>t. \<not> matches ident t) (read_all_tasks w))
               (snd (backup_file TASK_FILE (print_header ''DELETE TASK'' w)))))))"
    using delete_task_found by blast
  have c: "\<forall>t \<in> set (filter (\<lambda>t. \<not> matches ident t) (read_all_tasks w)). clean_task t"
    by (auto intro: read_all_tasks_clean)
  show ?thesis using d read_all_tasks_write [OF c] by simp
next
  case False
  then have n: "\<forall>t \<in> set (read_all_tasks w). \<not> matches ident t" by simp
  then have "filter (\<lambda>t. \<not> matches ident t) (read_all_tasks w) = read_all_tasks w" by simp
  then show ?thesis by (simp add: delete_task_not_found [OF n])
qed

lemma py_int_samples: "py_int [CHR ''5'', CHR 0x1C] = None \<and> py_int ''-5'' = Some (- 5) \<and> py_int '' 1_0 '' = Some 10"
  by code_simp

lemma update_loop_no_match:
  "\<forall>t \<in> set ts. tid t \<noteq> ident \<Longrightarrow>
   update_task_complete_loop ident ts (f, acc, w) = (f, acc @ ts, w)"
  by (induction ts arbitrary: acc) auto

lemma reset_loop_no_match:
  "\<forall>t \<in> set ts. tid t \<noteq> ident \<Longrightarrow>
   reset_task_incomplete_loop ident ts (f, acc, w) = (f, acc @ ts, w)"
  by (induction ts arbitrary: acc) auto

lemma update_loop_effects:
  "fst (update_task_complete_loop ident ts (f, acc, w)) = (f \<or> (\<exists>t \<in> set ts. tid t = ident)) \<and>
   fst (snd (update_task_complete_loop ident ts (f, acc, w))) =
     acc @ map (\<lambda>t. if tid t = ident then t\<lparr>tstatus := ''Yes''\<rparr> else t) ts \<and>
   files (snd (snd (update_task_complete_loop ident ts (f, acc, w)))) = files w \<and>
   calls (snd (snd (update_task_complete_loop ident ts (f, acc, w)))) = calls w"
  by (induction ts arbitrary: f acc w) auto

lemma reset_loop_effects:
  "fst (reset_task_incomplete_loop ident ts (f, acc, w)) =
     (f \<or> (\<exists>t \<in> set ts. tid t = ident \<and> lower (strip (tstatus t)) = ''yes'')) \<and>
   fst (snd (reset_task_incomplete_loop ident ts (f, acc, w))) =
     acc @ map (\<lambda>t. if tid t = ident \<and> lower (strip (tstatus t)) = ''yes'' then t\<lparr>tstatus := ''No''\<rparr> else t) ts \<and>
   files (snd (snd (reset_task_incomplete_loop ident ts (f, acc, w)))) = files w \<and>
   calls (snd (snd (reset_task_incomplete_loop ident ts (f, acc, w)))) = calls w"
  by (induction ts arbitrary: f acc w) auto

lemma calls_write_all_tasks [simp]: "calls (write_all_tasks ts w) = calls w @ [OpenWrite TASK_FILE]"
  by (simp add: write_all_tasks_def)

lemma console_write_all_tasks [simp]: "console (write_all_tasks ts w) = console w"
  by (simp add: write_all_tasks_def)

lemma calls_update_task_complete:
  "calls (update_task_complete ident w) =
     calls w @ (if \<exists>t \<in> set (read_all_tasks w). tid t = ident then [OpenWrite TASK_FILE] else [])"
proof -
  obtain f u v where e: "update_task_complete_loop ident (read_all_tasks w) (False, [], print_header ''MARK TASK AS COMPLETE'' w) = (f, u, v)"
    by (metis prod_cases3)
  show ?thesis
    using update_loop_effects [of ident "read_all_tasks w" False "[]" "print_header ''MARK TASK AS COMPLETE'' w"] e
    by (simp add: update_task_complete_def Let_def)
qed

lemma calls_reset_task_incomplete:
  "calls (reset_task_incomplete ident w) =
     calls w @ (if \<exists>t \<in> set (read_all_tasks w). tid t = ident \<and> lower (strip (tstatus t)) = ''yes''
                then [OpenWrite TASK_FILE] else [])"
proof -
  obtain f u v where e: "reset_task_incomplete_loop ident (read_all_tasks w) (False, [], print_header ''RESET TASK TO INCOMPLETE'' w) = (f, u, v)"
    by (metis prod_cases3)
  show ?thesis
    using reset_loop_effects [of ident "read_all_tasks w" False "[]" "print_header ''RESET TASK TO INCOMPLETE'' w"] e
    by (simp add: reset_task_incomplete_def Let_def)
qed

lemma calls_toggle_status: "calls (toggle_status sel w) = calls w @ [OpenWrite TASK_FILE]"
  by (simp add: toggle_status_def Let_def)

lemma calls_delete_task:
  "calls (delete_task ident w) =
     calls w @ [Copy TASK_FILE (TASK_FILE @ ''.backup_'' @ now_stamp w) (files w TASK_FILE \<noteq> None \<and> copy_ok w)]
       @ (if \<exists>t \<in> set (read_all_tasks w). matches ident t then [OpenWrite TASK_FILE] else [])"
proof (cases "\<exists>t \<in> set (read_all_tasks w). matches ident t")
  case True
  then obtain info where "delete_task ident w =
     logging INFO (''Task deleted - '' @ info)
       (print_line []
         (print_line (''  '' @ info @ '' has been deleted.'')
           (print_header ''SUCCESS''
             (write_all_tasks (filter (\<lambda>t. \<not> matches ident t) (read_all_tasks w))
               (snd (backup_file TASK_FILE (print_header ''DELETE TASK'' w)))))))"
    using delete_task_found by blast
  then show ?thesis using True by (simp add: calls_backup_file print_header_def)
next
  case False
  then show ?thesis by (simp add: delete_task_not_found calls_backup_file print_header_def)
qed

lemma update_task_complete_not_found:
  assumes "\<forall>t \<in> set (read_all_tasks w). tid t \<noteq> ident"
  shows "update_task_complete ident w =
     print_line []
       (print_line (''  Task ID '' @ apos @ ident @ apos @ '' not found.'')
         (print_header ''ERROR'' (print_header ''MARK TASK AS COMPLETE'' w)))"
  using assms by (simp add: update_task_complete_def Let_def update_loop_no_match)

lemma reset_task_incomplete_not_found:
  assumes "\<forall>t \<in> set (read_all_tasks w). tid t \<noteq> ident"
  shows "reset_task_incomplete ident w =
     logging WARNING (''Attempt to reset non-existent task ID '' @ ident)
       (print_line []
         (print_line (''  Task ID '' @ apos @ ident @ apos @ '' not found.'')
           (print_header ''ERROR'' (print_header ''RESET TASK TO INCOMPLETE'' w))))"
  using assms by (simp add: reset_task_incomplete_def Let_def reset_loop_no_match)

lemma two_tasks_file: "files two_tasks TASK_FILE = Some two_task_lines"
  by (simp add: two_tasks_def with_tasks_def)

lemma login_loop_None:
  "login_loop u p lines = None \<longleftrightarrow>
     (\<forall>l \<in> set lines. \<not> (length (split_cs (strip l)) = 3 \<and> split_cs (strip l) ! 0 = u \<and>
                             split_cs (strip l) ! 1 = p))"
  by (induction lines) (auto simp: Let_def)

lemma login_user_failed:
  assumes "files w USER_FILE = Some lines" and "login_loop u p lines = None"
  shows "login_user u p w =
     (None, logging WARNING (''Failed login attempt for username: '' @ u)
              (print_line []
                (print_line ''  Invalid username or password. Please try again.''
                  (print_header ''ERROR'' (print_header ''USER LOGIN'' w)))))"
  using assms by (simp add: login_user_def Let_def)

lemma one_user_file: "files one_user USER_FILE = Some one_user_lines"
  by (simp add: one_user_def with_users_def)

lemma reset_loop_already_incomplete:
  "\<forall>t \<in> set ts. tid t = ident \<longrightarrow> lower (strip (tstatus t)) \<noteq> ''yes'' \<Longrightarrow>
   reset_task_incomplete_loop ident ts (f, acc, w) =
     (f, acc @ ts,
      w\<lparr>console := console w @
           concat (map (\<lambda>t. if tid t = ident
                             then [Header ''INFO'',
                                   Line (''  Task ID '' @ ident @ '' ('' @ apos @ ttitle t @ apos
                                           @ '') is already incomplete.''),
                                   Line []]
                             else []) ts)\<rparr>)"
proof (induction ts arbitrary: acc w)
  case Nil
  show ?case by simp
next
  case (Cons t ts)
  then show ?case by (simp add: print_header_def print_line_def)
qed

lemma clean_task_status: "clean_task t \<Longrightarrow> s = ''Yes'' \<or> s = ''No'' \<Longrightarrow> clean_task (t\<lparr>tstatus := s\<rparr>)"
  by (auto simp: clean_task_def task_fields_def is_space_def)

lemma read_all_tasks_toggle_status:
  "read_all_tasks (toggle_status sel w) =
     map (\<lambda>t. if tid t = tid sel then t\<lparr>tstatus := tstatus (flipped sel)\<rparr> else t) (read_all_tasks w)"
proof -
  let ?ts = "map (\<lambda>t. if tid t = tid sel then t\<lparr>tstatus := tstatus (flipped sel)\<rparr> else t) (read_all_tasks w)"
  have "\<forall>t \<in> set ?ts. clean_task t"
    by (auto simp: flipped_def intro: read_all_tasks_clean clean_task_status)
  then have h: "read_all_tasks (write_all_tasks ?ts w) = ?ts" by (rule read_all_tasks_write)
  have t: "read_all_tasks (toggle_status sel w) = read_all_tasks (write_all_tasks ?ts w)"
    by (simp add: toggle_status_def Let_def flipped_def cong: if_cong)
  show ?thesis by (simp only: t h)
qed

lemma edit_task_locked:
  "lower (strip (tstatus sel)) = ''yes'' \<Longrightarrow>
   edit_task me sel opt new_user new_due user_tasks w =
     (print_line []
        (print_line ''  Cannot edit a completed task. Please mark it as incomplete first.''
          (print_header ''ERROR'' w)), user_tasks)"
  by (simp add: edit_task_def)

section \<open>The claims\<close>

text \<open>
  C1 (as amended). The ID that \<^verbatim>\<open>get_next_task_id\<close> returns is one more than the greatest
  of 0 and the integer IDs of the tasks now stored, so it is strictly greater than every
  stored ID. Nothing is remembered of deleted IDs: after \<^verbatim>\<open>delete_task\<close> the ID returned
  is one more than the greatest of 0 and the IDs of the tasks that remain, so it is at most
  \<open>d\<close> for every positive \<open>d\<close> above all remaining IDs, such as the ID of a deleted task
  that held the maximum.
\<close>

theorem get_next_task_id_is_max_plus_one:
  "get_next_task_id w = Max (insert 0 (task_ids (read_all_tasks w))) + 1 \<and>
   (\<forall>n \<in> task_ids (read_all_tasks w). n < get_next_task_id w) \<and>
   get_next_task_id (delete_task ident w) =
     Max (insert 0 (task_ids (filter (\<lambda>t. \<not> matches ident t) (read_all_tasks w)))) + 1 \<and>
   (\<forall>d. 0 < d \<and> (\<forall>n \<in> task_ids (filter (\<lambda>t. \<not> matches ident t) (read_all_tasks w)). n < d)
        \<longrightarrow> get_next_task_id (delete_task ident w) \<le> d)"
proof -
  let ?S = "task_ids (read_all_tasks w)"
  let ?R = "task_ids (filter (\<lambda>t. \<not> matches ident t) (read_all_tasks w))"
  have fS: "finite (insert 0 ?S)" and fR: "finite (insert 0 ?R)" by (simp_all add: task_ids_def)
  have a: "get_next_task_id w = Max (insert 0 ?S) + 1" by (rule get_next_task_id_Max)
  have b: "\<forall>n \<in> ?S. n < get_next_task_id w"
  proof
    fix n assume "n \<in> ?S"
    then have "n \<le> Max (insert 0 ?S)" using fS by (simp add: Max_ge)
    then show "n < get_next_task_id w" using a by simp
  qed
  have c: "get_next_task_id (delete_task ident w) = Max (insert 0 ?R) + 1"
    by (simp add: get_next_task_id_Max read_all_tasks_delete_task)
  have d: "\<forall>d. 0 < d \<and> (\<forall>n \<in> ?R. n < d) \<longrightarrow> get_next_task_id (delete_task ident w) \<le> d"
  proof (intro allI impI)
    fix d :: int assume h: "0 < d \<and> (\<forall>n \<in> ?R. n < d)"
    have "Max (insert 0 ?R) \<in> insert 0 ?R" using fR by (intro Max_in) auto
    then have "Max (insert 0 ?R) < d" using h by auto
    then show "get_next_task_id (delete_task ident w) \<le> d" using c by simp
  qed
  show ?thesis using a b c d by blast
qed

theorem get_next_task_id_is_max_plus_one_witness:
  "get_next_task_id (with_tasks gap_lines fresh_world) = 6 \<and>
   get_next_task_id (delete_task ''5'' (with_tasks gap_lines fresh_world)) = 2 \<and>
   get_next_task_id (delete_task ''2'' two_tasks) \<le> 2"
proof -
  have a: "Max (insert 0 (task_ids (read_all_tasks (with_tasks gap_lines fresh_world)))) + 1 = 6"
    by code_simp
  have b: "Max (insert 0 (task_ids (filter (\<lambda>t. \<not> matches ''5'' t)
             (read_all_tasks (with_tasks gap_lines fresh_world))))) + 1 = 2"
    by code_simp
  have c: "(0::int) < 2 \<and> (\<forall>n \<in> task_ids (filter (\<lambda>t. \<not> matches ''2'' t) (read_all_tasks two_tasks)). n < 2)"
    by code_simp
  have g: "get_next_task_id (with_tasks gap_lines fresh_world) =
             Max (insert 0 (task_ids (read_all_tasks (with_tasks gap_lines fresh_world)))) + 1"
    and h: "get_next_task_id (delete_task ''5'' (with_tasks gap_lines fresh_world)) =
             Max (insert 0 (task_ids (filter (\<lambda>t. \<not> matches ''5'' t)
               (read_all_tasks (with_tasks gap_lines fresh_world))))) + 1"
    using get_next_task_id_is_max_plus_one [of "with_tasks gap_lines fresh_world" "''5''"] by blast+
  have "\<forall>d. 0 < d \<and> (\<forall>n \<in> task_ids (filter (\<lambda>t. \<not> matches ''2'' t) (read_all_tasks two_tasks)). n < d)
        \<longrightarrow> get_next_task_id (delete_task ''2'' two_tasks) \<le> d"
    using get_next_task_id_is_max_plus_one [of two_tasks "''2''"] by blast
  then have k: "get_next_task_id (delete_task ''2'' two_tasks) \<le> 2" using c by blast
  show ?thesis using g h k by (simp only: a b simp_thms)
qed

text \<open>
  C1 as stated fails: with the tasks 1 and 2 stored the next ID is 3, and right after task
  2, which holds the greatest ID, is deleted, the next ID is 2 again.
\<close>

theorem deleted_maximum_id_is_reused:
  "2 \<in> task_ids (read_all_tasks two_tasks) \<and> get_next_task_id two_tasks = 3 \<and>
   \<not> 2 < get_next_task_id (delete_task ''2'' two_tasks)"
  by code_simp




text \<open>
  C3 (the code departs from it). When every stored task that carries the ID is not
  completed, \<^verbatim>\<open>reset_task_incomplete\<close> writes nothing and prints the already-incomplete
  notice for each such task, but it then also prints the not-found error and logs the
  attempt on a non-existent task: \<^verbatim>\<open>task_found\<close> is set only where a status is reset.
\<close>

theorem reset_already_incomplete_also_not_found:
  assumes "\<forall>t \<in> set (read_all_tasks w). tid t = ident \<longrightarrow> lower (strip (tstatus t)) \<noteq> ''yes''"
  shows "console (reset_task_incomplete ident w) =
           console w @ [Header ''RESET TASK TO INCOMPLETE''] @
           concat (map (\<lambda>t. if tid t = ident
                             then [Header ''INFO'',
                                   Line (''  Task ID '' @ ident @ '' ('' @ apos @ ttitle t @ apos
                                           @ '') is already incomplete.''),
                                   Line []]
                             else []) (read_all_tasks w)) @
           [Header ''ERROR'', Line (''  Task ID '' @ apos @ ident @ apos @ '' not found.''), Line []] \<and>
         logged (reset_task_incomplete ident w) =
           logged w @ [Log WARNING (''Attempt to reset non-existent task ID '' @ ident)] \<and>
         files (reset_task_incomplete ident w) = files w \<and>
         calls (reset_task_incomplete ident w) = calls w"
  using assms
  by (simp add: reset_task_incomplete_def Let_def reset_loop_already_incomplete)

theorem reset_already_incomplete_also_not_found_witness:
  "console (reset_task_incomplete ''1'' two_tasks) =
     [Header ''RESET TASK TO INCOMPLETE'', Header ''INFO'',
      Line (''  Task ID 1 ('' @ apos @ ''T1'' @ apos @ '') is already incomplete.''), Line [],
      Header ''ERROR'', Line (''  Task ID '' @ apos @ ''1'' @ apos @ '' not found.''), Line []] \<and>
   logged (reset_task_incomplete ''1'' two_tasks) =
     [Log WARNING ''Attempt to reset non-existent task ID 1'']"
proof -
  have a: "\<forall>t \<in> set (read_all_tasks two_tasks). tid t = ''1'' \<longrightarrow> lower (strip (tstatus t)) \<noteq> ''yes''"
    by code_simp
  have b: "console two_tasks @ [Header ''RESET TASK TO INCOMPLETE''] @
           concat (map (\<lambda>t. if tid t = ''1''
                             then [Header ''INFO'',
                                   Line (''  Task ID '' @ ''1'' @ '' ('' @ apos @ ttitle t @ apos
                                           @ '') is already incomplete.''),
                                   Line []]
                             else []) (read_all_tasks two_tasks)) @
           [Header ''ERROR'', Line (''  Task ID '' @ apos @ ''1'' @ apos @ '' not found.''), Line []] =
     [Header ''RESET TASK TO INCOMPLETE'', Header ''INFO'',
      Line (''  Task ID 1 ('' @ apos @ ''T1'' @ apos @ '') is already incomplete.''), Line [],
      Header ''ERROR'', Line (''  Task ID '' @ apos @ ''1'' @ apos @ '' not found.''), Line []]"
    by code_simp
  have c: "logged two_tasks = []" by code_simp
  show ?thesis using reset_already_incomplete_also_not_found [OF a] b c by simp
qed

text \<open>
  C4 (as amended). \<^verbatim>\<open>delete_task\<close> calls the backup copy of the task file first, whatever
  the identifier, and opens the task file for writing after it exactly when a task
  matches, whether the copy succeeded or failed. \<^verbatim>\<open>update_task_complete\<close>,
  \<^verbatim>\<open>reset_task_incomplete\<close> and the status toggle open the task file for writing with no
  backup call at all.
\<close>

theorem backup_precedes_delete_only:
  "calls (delete_task ident w) =
     calls w @ [Copy TASK_FILE (TASK_FILE @ ''.backup_'' @ now_stamp w) (files w TASK_FILE \<noteq> None \<and> copy_ok w)]
       @ (if \<exists>t \<in> set (read_all_tasks w). matches ident t then [OpenWrite TASK_FILE] else []) \<and>
   calls (update_task_complete ident w) =
     calls w @ (if \<exists>t \<in> set (read_all_tasks w). tid t = ident then [OpenWrite TASK_FILE] else []) \<and>
   calls (reset_task_incomplete ident w) =
     calls w @ (if \<exists>t \<in> set (read_all_tasks w). tid t = ident \<and> lower (strip (tstatus t)) = ''yes''
                then [OpenWrite TASK_FILE] else []) \<and>
   calls (toggle_status sel w) = calls w @ [OpenWrite TASK_FILE]"
  by (simp only: calls_delete_task calls_update_task_complete calls_reset_task_incomplete calls_toggle_status simp_thms)

theorem backup_precedes_delete_only_witness:
  "calls (delete_task ''2'' (two_tasks\<lparr>copy_ok := False\<rparr>)) =
     [Copy ''task.txt'' ''task.txt.backup_20240102_030405'' False, OpenWrite ''task.txt'']"
proof -
  have "calls (delete_task ''2'' (two_tasks\<lparr>copy_ok := False\<rparr>)) =
     calls (two_tasks\<lparr>copy_ok := False\<rparr>) @ [Copy TASK_FILE (TASK_FILE @ ''.backup_'' @ now_stamp (two_tasks\<lparr>copy_ok := False\<rparr>)) (files (two_tasks\<lparr>copy_ok := False\<rparr>) TASK_FILE \<noteq> None \<and> copy_ok (two_tasks\<lparr>copy_ok := False\<rparr>))]
       @ (if \<exists>t \<in> set (read_all_tasks (two_tasks\<lparr>copy_ok := False\<rparr>)). matches ''2'' t then [OpenWrite TASK_FILE] else [])"
    using backup_precedes_delete_only [of "''2''" "two_tasks\<lparr>copy_ok := False\<rparr>"] by blast
  also have "\<dots> = [Copy ''task.txt'' ''task.txt.backup_20240102_030405'' False, OpenWrite ''task.txt'']"
    by code_simp
  finally show ?thesis .
qed

text \<open>
  C4 as stated fails: marking task 1 complete and resetting task 2 each rewrite the task
  file, and the only call made on the file system is that write.
\<close>

theorem status_edit_writes_without_backup:
  "calls (update_task_complete ''1'' two_tasks) = [OpenWrite ''task.txt''] \<and>
   calls (reset_task_incomplete ''2'' two_tasks) = [OpenWrite ''task.txt'']"
  by code_simp

text \<open>
  C5 (as amended). \<^verbatim>\<open>read_all_tasks\<close> returns, in file order, exactly the records of the
  lines that split into seven fields after stripping, whether or not the ID field is an
  integer; every other line is skipped, and a missing file gives the empty list.
\<close>

theorem read_all_tasks_seven_fields:
  "read_all_tasks w =
     (case files w TASK_FILE of
        None \<Rightarrow> []
      | Some lines \<Rightarrow>
          map (\<lambda>l. as_task (split_cs (strip l))) (filter (\<lambda>l. length (split_cs (strip l)) = 7) lines))"
  by (simp add: read_all_tasks_def read_tasks_loop_filter split: option.split)

theorem read_all_tasks_seven_fields_witness:
  "read_all_tasks (with_tasks mixed_lines fresh_world) =
     [\<lparr>tid = ''abc'', uname = ''bob'', ttitle = ''T2'', tdesc = ''D'', tdue = ''2030-01-01'',
       tassigned = ''2024-01-01'', tstatus = ''No''\<rparr>]"
  by (subst read_all_tasks_seven_fields) code_simp

text \<open>
  C5 as stated fails: the ID \<^verbatim>\<open>abc\<close> is not an integer, and the line that carries it in
  seven fields is loaded all the same.
\<close>

theorem unparsable_id_is_loaded:
  "py_int ''abc'' = None \<and>
   read_all_tasks (with_tasks mixed_lines fresh_world) =
     [\<lparr>tid = ''abc'', uname = ''bob'', ttitle = ''T2'', tdesc = ''D'', tdue = ''2030-01-01'',
       tassigned = ''2024-01-01'', tstatus = ''No''\<rparr>]"
  by code_simp

text \<open>
  C6 (the code departs from it). With a user whose first incomplete task has the due date
  \<^verbatim>\<open>soon\<close>, the task overview skips that task and counts the other one as overdue, but
  the overdue count of the user raises the \<^verbatim>\<open>ValueError\<close>: the user overview is left with
  its heading only, and the operation ends in the error report.
\<close>

theorem user_overview_aborts_on_bad_due_date:
  "task_overview_txt (generate_reports bad_date_world) =
     Some \<lparr>total_tasks = 2, completed_tasks = 0, incomplete_tasks = 2, overdue_tasks = 1\<rparr> \<and>
   user_overview_txt (generate_reports bad_date_world) =
     Some \<lparr>total_users = 1, tracked_tasks = 2, sections = [], closed = False\<rparr> \<and>
   console (generate_reports bad_date_world) =
     [Header ''ERROR'', ErrorLine ''generating reports'' (ValueError ''soon''), Line []]"
  by code_simp

text \<open>
  C7 (the code departs from it). In one session alice marks her task 1 complete and
  selects it again: the list \<^verbatim>\<open>user_tasks\<close> still holds the status \<^verbatim>\<open>No\<close>, so the edit is
  let through and the stored task, whose status is \<^verbatim>\<open>Yes\<close>, is reassigned to bob.
\<close>

theorem completed_task_edited_in_same_session:
  "read_all_tasks one_task = [alice_task] \<and>
   fst (view_my_tasks ''alice'' [toggle_step\<lparr>another := ''n''\<rparr>] one_task) = None \<and>
   read_all_tasks (snd (view_my_tasks ''alice'' [toggle_step\<lparr>another := ''n''\<rparr>] one_task)) =
     [alice_task\<lparr>tstatus := ''Yes''\<rparr>] \<and>
   fst (view_my_tasks ''alice'' [toggle_step, reassign_step] one_task) = None \<and>
   read_all_tasks (snd (view_my_tasks ''alice'' [toggle_step, reassign_step] one_task)) =
     [alice_task\<lparr>uname := ''bob'', tstatus := ''Yes''\<rparr>]"
  by code_simp

text \<open>
  C8 (the code departs from it). In one session alice toggles her task 1, stored with the
  status \<^verbatim>\<open>No\<close>, twice: the second toggle computes the new status from the list
  \<^verbatim>\<open>user_tasks\<close> read at the start of the session, which still says \<^verbatim>\<open>No\<close>, and writes
  \<^verbatim>\<open>Yes\<close> again, so the task does not come back to its original status.
\<close>

theorem toggle_twice_in_one_session:
  "read_all_tasks one_task = [alice_task] \<and> tstatus alice_task = ''No'' \<and>
   read_all_tasks (snd (view_my_tasks ''alice'' [toggle_step\<lparr>another := ''n''\<rparr>] one_task)) =
     [alice_task\<lparr>tstatus := ''Yes''\<rparr>] \<and>
   fst (view_my_tasks ''alice'' [toggle_step, toggle_step\<lparr>another := ''n''\<rparr>] one_task) = None \<and>
   read_all_tasks (snd (view_my_tasks ''alice'' [toggle_step, toggle_step\<lparr>another := ''n''\<rparr>] one_task)) =
     [alice_task\<lparr>tstatus := ''Yes''\<rparr>]"
  by code_simp

text \<open>Where the second toggle is given the task that the first one left behind, the two
  toggles give every stored task with the ID of the selected one the status \<^verbatim>\<open>Yes\<close> if
  the selected status was exactly \<^verbatim>\<open>Yes\<close>, and \<^verbatim>\<open>No\<close> otherwise, and change no other
  task.\<close>

lemma toggle_twice_on_stored_task:
  "read_all_tasks (toggle_status (flipped sel) (toggle_status sel w)) =
     map (\<lambda>t. if tid t = tid sel
               then t\<lparr>tstatus := (if tstatus sel = ''Yes'' then ''Yes'' else ''No'')\<rparr> else t)
       (read_all_tasks w)"
  by (simp add: read_all_tasks_toggle_status flipped_def o_def cong: if_cong)

text \<open>
  C9. With the user file present, a login with a name that no complete record carries
  and a login with the name of a complete record and a password that no record of that
  name carries both return no user and print the same lines; no file changes, and each
  logs a warning that holds only the name typed.
\<close>

theorem login_failure_same_content:
  assumes "files w USER_FILE = Some lines"
    and "\<forall>l \<in> set lines. length (split_cs (strip l)) = 3 \<longrightarrow> split_cs (strip l) ! 0 \<noteq> u"
    and "\<exists>l \<in> set lines. length (split_cs (strip l)) = 3 \<and> split_cs (strip l) ! 0 = u'"
    and "\<forall>l \<in> set lines. length (split_cs (strip l)) = 3 \<and> split_cs (strip l) ! 0 = u'
            \<longrightarrow> split_cs (strip l) ! 1 \<noteq> p'"
  shows "fst (login_user u p w) = None \<and> fst (login_user u' p' w) = None \<and>
         console (snd (login_user u p w)) = console (snd (login_user u' p' w)) \<and>
         console (snd (login_user u p w)) =
           console w @ [Header ''USER LOGIN'', Header ''ERROR'',
                        Line ''  Invalid username or password. Please try again.'', Line []] \<and>
         files (snd (login_user u p w)) = files (snd (login_user u' p' w)) \<and>
         logged (snd (login_user u p w)) =
           logged w @ [Log WARNING (''Failed login attempt for username: '' @ u)] \<and>
         logged (snd (login_user u' p' w)) =
           logged w @ [Log WARNING (''Failed login attempt for username: '' @ u')]"
proof -
  have a: "login_loop u p lines = None" using assms(2) by (auto simp: login_loop_None)
  have b: "login_loop u' p' lines = None" using assms(4) by (auto simp: login_loop_None)
  show ?thesis
    by (simp add: login_user_failed [OF assms(1) a] login_user_failed [OF assms(1) b])
qed

theorem login_failure_same_content_witness:
  "fst (login_user ''mallory'' ''guess1'' one_user) = None \<and>
   fst (login_user ''alice'' ''guess1'' one_user) = None \<and>
   console (snd (login_user ''mallory'' ''guess1'' one_user)) =
     console (snd (login_user ''alice'' ''guess1'' one_user))"
proof -
  have a: "\<forall>l \<in> set one_user_lines. length (split_cs (strip l)) = 3 \<longrightarrow> split_cs (strip l) ! 0 \<noteq> ''mallory''"
    by code_simp
  have b: "\<exists>l \<in> set one_user_lines. length (split_cs (strip l)) = 3 \<and> split_cs (strip l) ! 0 = ''alice''"
    by code_simp
  have c: "\<forall>l \<in> set one_user_lines. length (split_cs (strip l)) = 3 \<and> split_cs (strip l) ! 0 = ''alice''
            \<longrightarrow> split_cs (strip l) ! 1 \<noteq> ''guess1''"
    by code_simp
  show ?thesis using login_failure_same_content [OF one_user_file a b c] by simp
qed

text \<open>
  C10. When no stored task has the identifier as its ID, \<^verbatim>\<open>update_task_complete\<close> and
  \<^verbatim>\<open>reset_task_incomplete\<close> print the not-found error, make no call on the file system
  and leave every file as it was; when moreover no stored task has it as its title,
  \<^verbatim>\<open>delete_task\<close> prints the not-found error, never opens the task file for writing and
  leaves the task file and the tasks read from it as they were.
\<close>

theorem not_found_writes_nothing:
  assumes "\<forall>t \<in> set (read_all_tasks w). tid t \<noteq> ident"
  shows "files (update_task_complete ident w) = files w \<and>
         calls (update_task_complete ident w) = calls w \<and>
         console (update_task_complete ident w) =
           console w @ [Header ''MARK TASK AS COMPLETE'', Header ''ERROR'',
                        Line (''  Task ID '' @ apos @ ident @ apos @ '' not found.''), Line []] \<and>
         files (reset_task_incomplete ident w) = files w \<and>
         calls (reset_task_incomplete ident w) = calls w \<and>
         console (reset_task_incomplete ident w) =
           console w @ [Header ''RESET TASK TO INCOMPLETE'', Header ''ERROR'',
                        Line (''  Task ID '' @ apos @ ident @ apos @ '' not found.''), Line []] \<and>
         ((\<forall>t \<in> set (read_all_tasks w). ttitle t \<noteq> ident) \<longrightarrow>
            files (delete_task ident w) TASK_FILE = files w TASK_FILE \<and>
            read_all_tasks (delete_task ident w) = read_all_tasks w \<and>
            OpenWrite TASK_FILE \<notin> set (drop (length (calls w)) (calls (delete_task ident w))) \<and>
            console (delete_task ident w) =
              console w @ [Header ''DELETE TASK'', Header ''ERROR'',
                           Line (''  Task '' @ apos @ ident @ apos @ '' not found.''), Line []])"
proof -
  have u: "files (update_task_complete ident w) = files w \<and>
         calls (update_task_complete ident w) = calls w \<and>
         console (update_task_complete ident w) =
           console w @ [Header ''MARK TASK AS COMPLETE'', Header ''ERROR'',
                        Line (''  Task ID '' @ apos @ ident @ apos @ '' not found.''), Line []]"
    by (simp add: update_task_complete_not_found [OF assms])
  have r: "files (reset_task_incomplete ident w) = files w \<and>
         calls (reset_task_incomplete ident w) = calls w \<and>
         console (reset_task_incomplete ident w) =
           console w @ [Header ''RESET TASK TO INCOMPLETE'', Header ''ERROR'',
                        Line (''  Task ID '' @ apos @ ident @ apos @ '' not found.''), Line []]"
    by (simp add: reset_task_incomplete_not_found [OF assms])
  have d: "files (delete_task ident w) TASK_FILE = files w TASK_FILE \<and>
            read_all_tasks (delete_task ident w) = read_all_tasks w \<and>
            OpenWrite TASK_FILE \<notin> set (drop (length (calls w)) (calls (delete_task ident w))) \<and>
            console (delete_task ident w) =
              console w @ [Header ''DELETE TASK'', Header ''ERROR'',
                           Line (''  Task '' @ apos @ ident @ apos @ '' not found.''), Line []]"
    if t: "\<forall>t \<in> set (read_all_tasks w). ttitle t \<noteq> ident"
  proof -
    have n: "\<forall>t \<in> set (read_all_tasks w). \<not> matches ident t"
      using assms t by (simp add: matches_def)
    show ?thesis
      by (simp add: delete_task_not_found [OF n] files_backup_file calls_backup_file)
  qed
  show ?thesis using u r d by blast
qed

theorem not_found_writes_nothing_witness:
  "files (update_task_complete ''7'' two_tasks) TASK_FILE = Some two_task_lines \<and>
   files (reset_task_incomplete ''7'' two_tasks) TASK_FILE = Some two_task_lines \<and>
   files (delete_task ''7'' two_tasks) TASK_FILE = Some two_task_lines \<and>
   console (delete_task ''7'' two_tasks) =
     [Header ''DELETE TASK'', Header ''ERROR'', Line (''  Task '' @ apos @ ''7'' @ apos @ '' not found.''), Line []]"
proof -
  have a: "\<forall>t \<in> set (read_all_tasks two_tasks). tid t \<noteq> ''7''" by code_simp
  have b: "\<forall>t \<in> set (read_all_tasks two_tasks). ttitle t \<noteq> ''7''" by code_simp
  have c: "console two_tasks = []" by code_simp
  show ?thesis using not_found_writes_nothing [OF a] b c two_tasks_file by simp
qed

end
